theory Spec2Isabelle
  imports Complex_Main "HOL-Library.Multiset"
begin

section \<open>JavaScript numbers\<close>

text \<open>
  The curve engine of \<^verbatim>\<open>src/App.tsx\<close> computes with JavaScript numbers. A number is
  modelled as a finite real, one of the two infinities, or NaN. The special values
  follow ECMAScript: every comparison with NaN is false, \<^verbatim>\<open>x / 0\<close> is an infinity or
  NaN, \<^verbatim>\<open>Math.max\<close> and \<^verbatim>\<open>Math.min\<close> return NaN as soon as one argument is NaN,
  \<^verbatim>\<open>0\<close> and NaN are the falsy numbers. The four operations are exact on finite
  values: rounding is not part of the model, nor is the overflow or underflow of a sum,
  product or quotient, which takes magnitudes far from those of thrusts, currents and
  weights. \<^verbatim>\<open>Math.pow\<close> does overflow and underflow on ordinary data, see below. The
  sign of zero is not modelled (every zero is \<^verbatim>\<open>+0\<close>; the code never divides by a
  zero that could be negative).
\<close>

datatype jsnum = Num real | PInf | NInf | NaN

fun Number_isFinite :: "jsnum option \<Rightarrow> bool" where
  "Number_isFinite (Some (Num r)) = True"
| "Number_isFinite _ = False"

fun is_num :: "jsnum \<Rightarrow> bool" where
  "is_num (Num r) = True"
| "is_num _ = False"

fun js_lt :: "jsnum \<Rightarrow> jsnum \<Rightarrow> bool" where
  "js_lt (Num a) (Num b) = (a < b)"
| "js_lt (Num a) PInf = True"
| "js_lt NInf (Num b) = True"
| "js_lt NInf PInf = True"
| "js_lt _ _ = False"

definition js_gt :: "jsnum \<Rightarrow> jsnum \<Rightarrow> bool" where
  "js_gt a b = js_lt b a"

fun js_le :: "jsnum \<Rightarrow> jsnum \<Rightarrow> bool" where
  "js_le NaN _ = False"
| "js_le _ NaN = False"
| "js_le a b = (\<not> js_lt b a)"

definition js_ge :: "jsnum \<Rightarrow> jsnum \<Rightarrow> bool" where
  "js_ge a b = js_le b a"

fun js_neg :: "jsnum \<Rightarrow> jsnum" where
  "js_neg (Num a) = Num (- a)"
| "js_neg PInf = NInf"
| "js_neg NInf = PInf"
| "js_neg NaN = NaN"

fun js_add :: "jsnum \<Rightarrow> jsnum \<Rightarrow> jsnum" where
  "js_add (Num a) (Num b) = Num (a + b)"
| "js_add NaN _ = NaN"
| "js_add _ NaN = NaN"
| "js_add PInf NInf = NaN"
| "js_add NInf PInf = NaN"
| "js_add PInf _ = PInf"
| "js_add _ PInf = PInf"
| "js_add NInf _ = NInf"
| "js_add _ NInf = NInf"

definition js_sub :: "jsnum \<Rightarrow> jsnum \<Rightarrow> jsnum" where
  "js_sub a b = js_add a (js_neg b)"

fun js_mul :: "jsnum \<Rightarrow> jsnum \<Rightarrow> jsnum" where
  "js_mul (Num a) (Num b) = Num (a * b)"
| "js_mul NaN _ = NaN"
| "js_mul _ NaN = NaN"
| "js_mul PInf (Num b) = (if b = 0 then NaN else if 0 < b then PInf else NInf)"
| "js_mul NInf (Num b) = (if b = 0 then NaN else if 0 < b then NInf else PInf)"
| "js_mul (Num a) PInf = (if a = 0 then NaN else if 0 < a then PInf else NInf)"
| "js_mul (Num a) NInf = (if a = 0 then NaN else if 0 < a then NInf else PInf)"
| "js_mul PInf PInf = PInf"
| "js_mul NInf NInf = PInf"
| "js_mul PInf NInf = NInf"
| "js_mul NInf PInf = NInf"

fun js_div :: "jsnum \<Rightarrow> jsnum \<Rightarrow> jsnum" where
  "js_div (Num a) (Num b) =
     (if b = 0 then (if a = 0 then NaN else if 0 < a then PInf else NInf)
      else Num (a / b))"
| "js_div NaN _ = NaN"
| "js_div _ NaN = NaN"
| "js_div (Num a) PInf = Num 0"
| "js_div (Num a) NInf = Num 0"
| "js_div PInf (Num b) = (if 0 \<le> b then PInf else NInf)"
| "js_div NInf (Num b) = (if 0 \<le> b then NInf else PInf)"
| "js_div _ _ = NaN"

fun js_truthy :: "jsnum \<Rightarrow> bool" where
  "js_truthy (Num a) = (a \<noteq> 0)"
| "js_truthy NaN = False"
| "js_truthy _ = True"

text \<open>\<^verbatim>\<open>a || b\<close> on numbers.\<close>

definition js_or :: "jsnum \<Rightarrow> jsnum \<Rightarrow> jsnum" where
  "js_or a b = (if js_truthy a then a else b)"

text \<open>
  A field that may be missing is a \<open>jsnum option\<close>: \<open>None\<close> is \<^verbatim>\<open>undefined\<close> or
  \<^verbatim>\<open>null\<close>. \<open>nullish v d\<close> is \<^verbatim>\<open>v ?? d\<close> and \<open>falsy_or v d\<close> is \<^verbatim>\<open>v || d\<close>.
\<close>

fun nullish :: "jsnum option \<Rightarrow> jsnum \<Rightarrow> jsnum" where
  "nullish None d = d"
| "nullish (Some v) d = v"

fun falsy_or :: "jsnum option \<Rightarrow> jsnum \<Rightarrow> jsnum" where
  "falsy_or None d = d"
| "falsy_or (Some v) d = js_or v d"

fun Math_max :: "jsnum \<Rightarrow> jsnum \<Rightarrow> jsnum" where
  "Math_max NaN _ = NaN"
| "Math_max _ NaN = NaN"
| "Math_max a b = (if js_lt a b then b else a)"

fun Math_min :: "jsnum \<Rightarrow> jsnum \<Rightarrow> jsnum" where
  "Math_min NaN _ = NaN"
| "Math_min _ NaN = NaN"
| "Math_min a b = (if js_lt b a then b else a)"

text \<open>\<^verbatim>\<open>Math.max(...ys)\<close> and \<^verbatim>\<open>Math.min(...ys)\<close>: the empty spread gives
  \<^verbatim>\<open>-Infinity\<close> and \<^verbatim>\<open>Infinity\<close>.\<close>

definition Math_max_list :: "jsnum list \<Rightarrow> jsnum" where
  "Math_max_list ys = foldl Math_max NInf ys"

definition Math_min_list :: "jsnum list \<Rightarrow> jsnum" where
  "Math_min_list ys = foldl Math_min PInf ys"

fun Math_abs :: "jsnum \<Rightarrow> jsnum" where
  "Math_abs (Num a) = Num \<bar>a\<bar>"
| "Math_abs NaN = NaN"
| "Math_abs _ = PInf"

fun Math_log :: "jsnum \<Rightarrow> jsnum" where
  "Math_log (Num a) = (if a < 0 then NaN else if a = 0 then NInf else Num (ln a))"
| "Math_log PInf = PInf"
| "Math_log _ = NaN"

fun Math_sqrt :: "jsnum \<Rightarrow> jsnum" where
  "Math_sqrt (Num a) = (if a < 0 then NaN else Num (sqrt a))"
| "Math_sqrt PInf = PInf"
| "Math_sqrt _ = NaN"

text \<open>
  \<^verbatim>\<open>Math.pow(base, exponent)\<close>, by the cases of ECMAScript's
  \<^verbatim>\<open>Number::exponentiate\<close>: a NaN exponent gives NaN, a zero exponent gives 1 for
  every base, an infinite exponent compares the magnitude of the base with 1, a
  negative base needs an integral exponent. A power leaves the range of the numbers
  easily, and the code divides by it and multiplies with it, so its result is brought
  into the binary64 range by \<open>double_range\<close>: a magnitude of at most \<open>2^-1075\<close>, half the
  least positive number, is 0, and one of at least \<open>2^1024 - 2^970\<close> is an infinity.
  Inside the range the power is exact.
\<close>

definition double_range :: "real \<Rightarrow> jsnum" where
  "double_range v =
     (if \<bar>v\<bar> \<le> 1 / 2 ^ 1075 then Num 0
      else if 2 ^ 970 * (2 ^ 54 - 1) \<le> \<bar>v\<bar> then (if 0 < v then PInf else NInf)
      else Num v)"

definition is_integral :: "real \<Rightarrow> bool" where
  "is_integral e = (e = of_int \<lfloor>e\<rfloor>)"

fun Math_pow :: "jsnum \<Rightarrow> jsnum \<Rightarrow> jsnum" where
  "Math_pow b NaN = NaN"
| "Math_pow b (Num e) =
     (if e = 0 then Num 1
      else case b of
        NaN \<Rightarrow> NaN
      | PInf \<Rightarrow> (if 0 < e then PInf else Num 0)
      | NInf \<Rightarrow> (if 0 < e then (if is_integral e \<and> odd \<lfloor>e\<rfloor> then NInf else PInf) else Num 0)
      | Num r \<Rightarrow>
          (if r = 0 then (if 0 < e then Num 0 else PInf)
           else if 0 < r then double_range (r powr e)
           else if is_integral e
             then double_range ((if odd \<lfloor>e\<rfloor> then - 1 else 1) * (\<bar>r\<bar> powr e))
           else NaN))"
| "Math_pow b PInf =
     (case b of
        NaN \<Rightarrow> NaN
      | Num r \<Rightarrow> (if 1 < \<bar>r\<bar> then PInf else if \<bar>r\<bar> = 1 then NaN else Num 0)
      | _ \<Rightarrow> PInf)"
| "Math_pow b NInf =
     (case b of
        NaN \<Rightarrow> NaN
      | Num r \<Rightarrow> (if 1 < \<bar>r\<bar> then Num 0 else if \<bar>r\<bar> = 1 then NaN else PInf)
      | _ \<Rightarrow> Num 0)"

section \<open>Sorting with a comparator\<close>

text \<open>
  \<^verbatim>\<open>Array.prototype.sort(cmp)\<close> is stable, and for a consistent comparator its result
  is the one stable arrangement in which no element is followed by a smaller one.
  Insertion from the right computes that arrangement: an element moves past exactly
  the elements it compares greater than (\<^verbatim>\<open>cmp(v, u) > 0\<close>). The comparators of this
  program are differences of two fields, consistent whenever the fields are finite.
\<close>

fun js_insert :: "('a \<Rightarrow> 'a \<Rightarrow> jsnum) \<Rightarrow> 'a \<Rightarrow> 'a list \<Rightarrow> 'a list" where
  "js_insert cmp v [] = [v]"
| "js_insert cmp v (u # us) =
     (if js_gt (cmp v u) (Num 0) then u # js_insert cmp v us else v # u # us)"

definition js_sort :: "('a \<Rightarrow> 'a \<Rightarrow> jsnum) \<Rightarrow> 'a list \<Rightarrow> 'a list" where
  "js_sort cmp xs = foldr (js_insert cmp) xs []"

section \<open>Series builder\<close>

text \<open>
  A raw sample row \<^verbatim>\<open>{current, thrust_kg, throttle}\<close>. \<open>None\<close> in \<open>row_current\<close> or
  \<open>row_thrust_kg\<close> stands for any value that is not of type number, for which
  \<^verbatim>\<open>Number.isFinite\<close> is false. A series point is \<^verbatim>\<open>{x, y, throttle}\<close>.
\<close>

record row =
  row_current :: "jsnum option"
  row_thrust_kg :: "jsnum option"
  row_throttle :: "jsnum option"

record point =
  pt_x :: jsnum
  pt_y :: jsnum
  pt_throttle :: "jsnum option"

text \<open>The value of a field that passed \<^verbatim>\<open>Number.isFinite\<close>; a non-number reads as NaN
  (it never reaches \<open>toPoint\<close>, the filter runs first).\<close>

fun as_number :: "jsnum option \<Rightarrow> jsnum" where
  "as_number (Some v) = v"
| "as_number None = NaN"

definition finiteRow :: "row \<Rightarrow> bool" where
  "finiteRow p = (Number_isFinite (row_current p) \<and> Number_isFinite (row_thrust_kg p))"

definition toPoint :: "row \<Rightarrow> point" where
  "toPoint p =
     \<lparr>pt_x = as_number (row_current p), pt_y = as_number (row_thrust_kg p),
      pt_throttle = row_throttle p\<rparr>"

definition byX :: "point \<Rightarrow> point \<Rightarrow> jsnum" where
  "byX a b = js_sub (pt_x a) (pt_x b)"

definition byY :: "point \<Rightarrow> point \<Rightarrow> jsnum" where
  "byY a b = js_sub (pt_y a) (pt_y b)"

text \<open>\<open>buildSeries None\<close> is the call with \<^verbatim>\<open>null\<close> or \<^verbatim>\<open>undefined\<close>.\<close>

definition buildSeries :: "row list option \<Rightarrow> point list" where
  "buildSeries points =
     (case points of
        None \<Rightarrow> []
      | Some ps \<Rightarrow> js_sort byX (map toPoint (filter finiteRow ps)))"

section \<open>Lift interpolator\<close>

text \<open>
  A series is the list of its points; the empty list also stands for a missing series
  (\<^verbatim>\<open>!series || !series.length\<close>). The throttle of a point is a number or missing.
\<close>

datatype reason = NoData | ExceedsMax | SegmentNotFound

datatype result =
    Ok (currentA: jsnum) (throttle: jsnum) (noteLow: bool)
  | Err reason

definition eps9 :: jsnum where
  "eps9 = Num 0.000000001"

definition eps6 :: jsnum where
  "eps6 = Num 0.000001"

text \<open>The guard of the power-law branch: both lowest points have positive thrust and
  current.\<close>

definition positivePair :: "point \<Rightarrow> point \<Rightarrow> bool" where
  "positivePair a b =
     (js_gt (pt_y a) (Num 0) \<and> js_gt (pt_y b) (Num 0) \<and>
      js_gt (pt_x a) (Num 0) \<and> js_gt (pt_x b) (Num 0))"

text \<open>Lines 26 to 40: the fit \<^verbatim>\<open>I = a * T^b\<close> through the two lowest points.\<close>

definition powerLaw :: "point \<Rightarrow> point \<Rightarrow> jsnum \<Rightarrow> result" where
  "powerLaw a b lift =
     (let bExp = js_div (Math_log (js_div (pt_x b) (pt_x a)))
                        (Math_log (js_div (pt_y b) (pt_y a)));
          aCoef = js_div (pt_x a) (Math_pow (pt_y a) bExp);
          currentPL = js_mul aCoef (Math_pow (Math_max lift eps9) bExp);
          thr =
            (if js_gt (nullish (pt_throttle a) (Num 0)) (Num 0) \<and>
                js_gt (nullish (pt_throttle b) (Num 0)) (Num 0)
             then
               (let dExp = js_div (Math_log (js_div (falsy_or (pt_throttle b) (Num 1))
                                                    (falsy_or (pt_throttle a) (Num 1))))
                                  (Math_log (js_div (pt_y b) (pt_y a)));
                    cCoef = js_div (falsy_or (pt_throttle a) (Num 1)) (Math_pow (pt_y a) dExp)
                in js_mul cCoef (Math_pow (Math_max lift eps9) dExp))
             else
               (let k = js_div (nullish (pt_throttle a) (Num 0))
                               (Math_sqrt (js_or (pt_y a) eps9))
                in js_mul k (Math_sqrt (Math_max lift (Num 0)))))
      in Ok (Math_max (Num 0) currentPL) (Math_max (Num 0) thr) True)"

text \<open>Lines 43 to 47: linear in thrust-current and thrust-throttle.\<close>

definition linearFallback :: "point \<Rightarrow> point \<Rightarrow> jsnum \<Rightarrow> jsnum \<Rightarrow> result" where
  "linearFallback a b dy lift =
     (let slopeIx = js_div (js_sub (pt_x b) (pt_x a)) dy;
          slopeTh = js_div (js_sub (nullish (pt_throttle b) (Num 0))
                                   (nullish (pt_throttle a) (Num 0))) dy;
          current = Math_max (Num 0) (js_add (pt_x a) (js_mul (js_sub lift (pt_y a)) slopeIx));
          thr = Math_max (Num 0)
                  (js_add (nullish (pt_throttle a) (Num 0))
                          (js_mul (js_sub lift (pt_y a)) slopeTh))
      in Ok current thr True)"

text \<open>Lines 50 and 51: a single point is scaled towards the origin.\<close>

definition singlePoint :: "point \<Rightarrow> jsnum \<Rightarrow> result" where
  "singlePoint mn lift =
     (let scale = Math_max (Num 0) (js_div lift (Math_max (pt_y mn) eps9))
      in Ok (js_mul (pt_x mn) scale) (js_mul (nullish (pt_throttle mn) (Num 0)) scale) True)"

text \<open>Lines 61 to 64: interpolation between the bracketing pair.\<close>

definition lerpSegment :: "point \<Rightarrow> point \<Rightarrow> jsnum \<Rightarrow> result" where
  "lerpSegment a b lift =
     (let t = js_div (js_sub lift (pt_y a)) (js_or (js_sub (pt_y b) (pt_y a)) (Num 1));
          current = js_add (pt_x a) (js_mul t (js_sub (pt_x b) (pt_x a)));
          thr = js_add (nullish (pt_throttle a) (Num 0))
                       (js_mul t (js_sub (nullish (pt_throttle b) (Num 0))
                                         (nullish (pt_throttle a) (Num 0))))
      in Ok current thr False)"

text \<open>The loop of lines 58 to 67 over consecutive pairs \<^verbatim>\<open>pts[i], pts[i+1]\<close>; it
  falls through to \<^verbatim>\<open>segment-not-found\<close> when no pair is left.\<close>

fun segmentLoop :: "point list \<Rightarrow> jsnum \<Rightarrow> result" where
  "segmentLoop (a # b # rest) lift =
     (if js_ge lift (pt_y a) \<and> js_le lift (pt_y b) then lerpSegment a b lift
      else segmentLoop (b # rest) lift)"
| "segmentLoop _ lift = Err SegmentNotFound"

definition interpolateCurrentForLift :: "point list \<Rightarrow> jsnum \<Rightarrow> result" where
  "interpolateCurrentForLift series liftKgPerMotor =
     (if series = [] then Err NoData
      else
        let pts = js_sort byY series; mn = hd pts; mx = last pts in
        if js_lt liftKgPerMotor (pt_y mn) then
          (if 2 \<le> length pts then
             (let a = pts ! 0; b = pts ! 1;
                  dy = js_or (js_sub (pt_y b) (pt_y a)) eps9
              in if positivePair a b then powerLaw a b liftKgPerMotor
                 else linearFallback a b dy liftKgPerMotor)
           else singlePoint mn liftKgPerMotor)
        else if js_gt liftKgPerMotor (pt_y mx) then Err ExceedsMax
        else segmentLoop pts liftKgPerMotor)"

section \<open>Flight-curve builder and curve partitioner\<close>

record fcpoint =
  fc_w :: jsnum
  fc_t :: jsnum
  fc_est :: bool

definition byW :: "fcpoint \<Rightarrow> fcpoint \<Rightarrow> jsnum" where
  "byW a b = js_sub (fc_w a) (fc_w b)"

text \<open>Lines 100 to 102 and 111 to 113: flight minutes from a per-motor current.\<close>

definition minutesFor :: "jsnum \<Rightarrow> jsnum \<Rightarrow> jsnum \<Rightarrow> jsnum" where
  "minutesFor cur motorCount usableAh =
     (let perMotorA = Math_max (js_or cur (Num 0)) (Num 0.1);
          totalCurrent = js_mul perMotorA motorCount
      in if js_gt totalCurrent (Num 0)
         then Math_min (js_mul (js_div usableAh totalCurrent) (Num 60)) (Num 120)
         else Num 0)"

text \<open>The body of the sweep loop for sample \<open>i\<close>: the list \<open>out\<close> after the
  iteration.\<close>

definition sweepStep ::
  "point list \<Rightarrow> jsnum \<Rightarrow> jsnum \<Rightarrow> jsnum \<Rightarrow> jsnum \<Rightarrow> jsnum \<Rightarrow> nat \<Rightarrow> nat \<Rightarrow>
   fcpoint list \<Rightarrow> fcpoint list" where
  "sweepStep series motorCount usableAh minPerMotorLift startPer endPer points i out =
     (let perMotor = js_add startPer
                       (js_mul (js_sub endPer startPer)
                               (js_div (Num (real i)) (js_sub (Num (real points)) (Num 1))))
      in case interpolateCurrentForLift series perMotor of
           Ok cur thr low \<Rightarrow>
             out @ [\<lparr>fc_w = js_mul perMotor motorCount,
                     fc_t = minutesFor cur motorCount usableAh,
                     fc_est = js_lt perMotor (js_sub minPerMotorLift eps9)\<rparr>]
         | Err e \<Rightarrow> out)"

text \<open>\<^verbatim>\<open>for(let i=0;i<points;i++)\<close>, with \<open>points\<close> a sample count (60 by default, 40
  in the application).\<close>

function sweepLoop ::
  "point list \<Rightarrow> jsnum \<Rightarrow> jsnum \<Rightarrow> jsnum \<Rightarrow> jsnum \<Rightarrow> jsnum \<Rightarrow> nat \<Rightarrow> nat \<Rightarrow>
   fcpoint list \<Rightarrow> fcpoint list" where
  "sweepLoop series motorCount usableAh minPerMotorLift startPer endPer points i out =
     (if i < points
      then sweepLoop series motorCount usableAh minPerMotorLift startPer endPer points (Suc i)
             (sweepStep series motorCount usableAh minPerMotorLift startPer endPer points i out)
      else out)"
  by pat_completeness auto
termination
  by (relation "measure (\<lambda>(s, m, u, mi, st, en, points, i, out). points - i)") auto

declare sweepLoop.simps [simp del]

text \<open>Lines 108 to 119: the point at the measured boundary, unless a point of that
  weight is there already.\<close>

definition addBoundary ::
  "point list \<Rightarrow> jsnum \<Rightarrow> jsnum \<Rightarrow> jsnum \<Rightarrow> fcpoint list \<Rightarrow> fcpoint list" where
  "addBoundary series motorCount usableAh minPerMotorLift out =
     (if js_gt minPerMotorLift (Num 0) then
        (case interpolateCurrentForLift series minPerMotorLift of
           Ok cur thr low \<Rightarrow>
             (let boundary = \<lparr>fc_w = js_mul minPerMotorLift motorCount,
                              fc_t = minutesFor cur motorCount usableAh,
                              fc_est = False\<rparr>;
                  exists = list_ex (\<lambda>p. js_lt (Math_abs (js_sub (fc_w p) (fc_w boundary))) eps6) out
              in if \<not> exists then out @ [boundary] else out)
         | Err e \<Rightarrow> out)
      else out)"

definition buildFlightCurve ::
  "point list \<Rightarrow> jsnum \<Rightarrow> jsnum \<Rightarrow> jsnum \<Rightarrow> nat \<Rightarrow> fcpoint list" where
  "buildFlightCurve series motorCount capacityAh usablePct points =
     (if series = [] then []
      else
        let ys = filter is_num (map pt_y series);
            minPerMotorLift = (if ys \<noteq> [] then Math_min_list ys else Num 0);
            maxPerMotorLift = (if ys \<noteq> [] then Math_max_list ys else Num 0);
            startPer = Math_max (Num 0) (js_mul minPerMotorLift (Num 0.7));
            endPer = Math_max (js_add startPer (Num 0.01)) (js_mul maxPerMotorLift (Num 0.99));
            usableAh = js_mul capacityAh (js_div usablePct (Num 100));
            out = sweepLoop series motorCount usableAh minPerMotorLift startPer endPer points 0 [];
            out' = addBoundary series motorCount usableAh minPerMotorLift out
        in js_sort byW out')"


section \<open>Notions used in the statements\<close>



text \<open>A point of the flight curve whose total weight is within \<open>1e-6\<close> of the weight
  \<open>bw\<close>: the test of line 116.\<close>

definition nearWeight :: "jsnum \<Rightarrow> fcpoint \<Rightarrow> bool" where
  "nearWeight bw p = js_lt (Math_abs (js_sub (fc_w p) bw)) eps6"

text \<open>The pair \<open>a, b\<close> brackets the target: the test of line 60.\<close>

definition brackets :: "point \<Rightarrow> point \<Rightarrow> jsnum \<Rightarrow> bool" where
  "brackets a b lift = (js_ge lift (pt_y a) \<and> js_le lift (pt_y b))"

text \<open>The real value of a finite number, for comparing the comparator sort with
  \<^const>\<open>sort_key\<close>; it is used on finite numbers only.\<close>

fun num_val :: "jsnum \<Rightarrow> real" where
  "num_val (Num r) = r"
| "num_val _ = 0"

section \<open>Example inputs\<close>

definition series_5_10 :: "point list" where
  "series_5_10 = [\<lparr>pt_x = Num 5, pt_y = Num 1, pt_throttle = None\<rparr>,
                  \<lparr>pt_x = Num 10, pt_y = Num 2, pt_throttle = None\<rparr>]"

definition series_2_4 :: "point list" where
  "series_2_4 = [\<lparr>pt_x = Num 2, pt_y = Num 0.5, pt_throttle = Some (Num 20)\<rparr>,
                 \<lparr>pt_x = Num 4, pt_y = Num 1, pt_throttle = Some (Num 30)\<rparr>]"

definition series_single :: "point list" where
  "series_single = [\<lparr>pt_x = Num 5, pt_y = Num 1, pt_throttle = None\<rparr>]"

definition series_equal_thrust :: "point list" where
  "series_equal_thrust = [\<lparr>pt_x = Num 2, pt_y = Num 0.5, pt_throttle = None\<rparr>,
                          \<lparr>pt_x = Num 4, pt_y = Num 0.5, pt_throttle = None\<rparr>]"


definition series_flat :: "point list" where
  "series_flat = [\<lparr>pt_x = Num 0, pt_y = Num 1, pt_throttle = None\<rparr>,
                  \<lparr>pt_x = Num 0, pt_y = Num 2, pt_throttle = None\<rparr>]"

definition series_close :: "point list" where
  "series_close = [\<lparr>pt_x = Num 0, pt_y = Num 0.99, pt_throttle = None\<rparr>,
                   \<lparr>pt_x = Num 2, pt_y = Num 1.0000005, pt_throttle = None\<rparr>]"


definition series_near_equal :: "point list" where
  "series_near_equal = [\<lparr>pt_x = Num 2, pt_y = Num 0.5, pt_throttle = None\<rparr>,
                        \<lparr>pt_x = Num 4, pt_y = Num 0.5002, pt_throttle = None\<rparr>]"

definition rows_example :: "row list" where
  "rows_example =
     [\<lparr>row_current = Some (Num 3), row_thrust_kg = Some (Num 1), row_throttle = Some (Num 50)\<rparr>,
      \<lparr>row_current = Some (Num 2), row_thrust_kg = Some NaN, row_throttle = None\<rparr>,
      \<lparr>row_current = None, row_thrust_kg = Some (Num 2), row_throttle = None\<rparr>,
      \<lparr>row_current = Some (Num 1), row_thrust_kg = Some (Num 0.5), row_throttle = None\<rparr>]"

section \<open>Basic facts\<close>

lemma js_lt_asym: "js_lt a b \<Longrightarrow> \<not> js_lt b a"
  by (cases a; cases b) auto

lemma mset_js_insert: "mset (js_insert cmp v xs) = add_mset v (mset xs)"
  by (induction xs) auto

lemma mset_js_sort: "mset (js_sort cmp xs) = mset xs"
  by (induction xs) (auto simp: js_sort_def mset_js_insert)

lemma set_js_sort: "set (js_sort cmp xs) = set xs"
  by (metis mset_js_sort set_mset_mset)

lemma length_js_sort: "length (js_sort cmp xs) = length xs"
  by (metis mset_js_sort size_mset)

lemma js_sort_eq_Nil: "js_sort cmp xs = [] \<longleftrightarrow> xs = []"
  by (metis length_js_sort length_0_conv)

lemma sort_5_10: "js_sort byY series_5_10 = series_5_10"
  by (simp add: js_sort_def series_5_10_def byY_def js_sub_def js_gt_def)

section \<open>The lift interpolator: range checks\<close>

text \<open>
  Claim C7. For a non-empty series, a target lift strictly greater than every thrust of
  the series (so greater than the maximum) gives \<^verbatim>\<open>exceeds-max\<close>: nothing is
  extrapolated above the measured data.
\<close>

theorem exceeds_max:
  assumes "series \<noteq> []" and "\<forall>p\<in>set series. js_gt lift (pt_y p)"
  shows "interpolateCurrentForLift series lift = Err ExceedsMax"
proof -
  let ?pts = "js_sort byY series"
  have ne: "?pts \<noteq> []" using assms(1) by (simp add: js_sort_eq_Nil)
  then have "hd ?pts \<in> set series" "last ?pts \<in> set series"
    using set_js_sort[of byY series] hd_in_set last_in_set by blast+
  then have "js_gt lift (pt_y (hd ?pts))" "js_gt lift (pt_y (last ?pts))"
    using assms(2) by blast+
  moreover from this have "\<not> js_lt lift (pt_y (hd ?pts))"
    by (simp add: js_gt_def js_lt_asym)
  ultimately show ?thesis
    using assms(1) by (simp add: interpolateCurrentForLift_def Let_def)
qed

text \<open>The instance of the specification: the series \<open>(5, 1), (10, 2)\<close> queried at 3.\<close>

theorem exceeds_max_witness:
  "interpolateCurrentForLift series_5_10 (Num 3) = Err ExceedsMax"
proof -
  have a: "series_5_10 \<noteq> []" by (simp add: series_5_10_def)
  have b: "\<forall>p\<in>set series_5_10. js_gt (Num 3) (pt_y p)"
    by (simp add: series_5_10_def js_gt_def)
  show ?thesis using exceeds_max [OF a b] .
qed

text \<open>
  Claim C4. For a non-empty series and a target lift strictly below every thrust of the
  series (so below the minimum), the result is \<open>Ok\<close> with \<open>noteLow = True\<close>, never an
  error, whichever of the three extrapolations computes it: the power law or the linear
  fallback on the two lowest points, or the scaling of a single point.
\<close>

theorem below_range_ok:
  assumes "series \<noteq> []" and "\<forall>p\<in>set series. js_lt lift (pt_y p)"
    and "pts = js_sort byY series"
  shows "(\<exists>c t. interpolateCurrentForLift series lift = Ok c t True) \<and>
         interpolateCurrentForLift series lift =
           (if 2 \<le> length series then
              (if positivePair (pts ! 0) (pts ! 1) then powerLaw (pts ! 0) (pts ! 1) lift
               else linearFallback (pts ! 0) (pts ! 1)
                      (js_or (js_sub (pt_y (pts ! 1)) (pt_y (pts ! 0))) eps9) lift)
            else singlePoint (hd pts) lift)"
proof -
  have "pts \<noteq> []" using assms(1,3) by (simp add: js_sort_eq_Nil)
  then have "hd pts \<in> set series"
    using set_js_sort[of byY series] hd_in_set assms(3) by blast
  then have "js_lt lift (pt_y (hd pts))"
    using assms(2) by blast
  then show ?thesis
    using assms(1) unfolding assms(3)
    by (simp add: interpolateCurrentForLift_def Let_def powerLaw_def linearFallback_def
        singlePoint_def length_js_sort)
qed

theorem below_range_ok_witness:
  "interpolateCurrentForLift series_single (Num 0.5) = Ok (Num 2.5) (Num 0) True"
proof -
  have a: "series_single \<noteq> []" by (simp add: series_single_def)
  have b: "\<forall>p\<in>set series_single. js_lt (Num 0.5) (pt_y p)"
    by (simp add: series_single_def)
  have c: "js_sort byY series_single = series_single"
    by (simp add: series_single_def js_sort_def)
  show ?thesis
    using below_range_ok [OF a b c [symmetric]]
    by (simp add: series_single_def singlePoint_def eps9_def)
qed

text \<open>
  Claim C3 says that a target inside the measured range always finds its bracketing
  pair. A series of one point has no pair: the loop body never runs, and a target equal
  to the only thrust, neither below the minimum nor above the maximum, ends in
  \<^verbatim>\<open>segment-not-found\<close>.
\<close>

theorem single_point_segment_not_found:
  "series_single \<noteq> [] \<and>
   \<not> js_lt (Num 1) (pt_y (hd (js_sort byY series_single))) \<and>
   \<not> js_gt (Num 1) (pt_y (last (js_sort byY series_single))) \<and>
   interpolateCurrentForLift series_single (Num 1) = Err SegmentNotFound"
  by (simp add: interpolateCurrentForLift_def js_sort_def series_single_def js_gt_def)

section \<open>The lift interpolator: extrapolation below the range\<close>

text \<open>Powers inside the binary64 range are exact.\<close>

lemma double_range_id:
  "1 / 10 ^ 300 \<le> \<bar>v\<bar> \<Longrightarrow> \<bar>v\<bar> \<le> 10 ^ 300 \<Longrightarrow> double_range v = Num v"
proof -
  assume a: "1 / 10 ^ 300 \<le> \<bar>v\<bar>" and b: "\<bar>v\<bar> \<le> 10 ^ 300"
  have "(1::real) / 2 ^ 1075 < 1 / 10 ^ 300" by simp
  moreover have "(10::real) ^ 300 < 2 ^ 970 * (2 ^ 54 - 1)" by simp
  ultimately show ?thesis using a b by (simp add: double_range_def)
qed

lemma half_powr_log: "(1 / 2) powr (ln (3 / 2) / ln 2) = (2 / 3 :: real)"
proof -
  have "(1 / 2 :: real) powr (ln (3 / 2) / ln 2) = exp (ln (3 / 2) / ln 2 * ln (1 / 2))"
    by (simp add: powr_def)
  also have "ln (1 / 2 :: real) = - ln 2" by (simp add: ln_div)
  also have "ln (3 / 2) / ln 2 * - ln 2 = - ln (3 / 2 :: real)" by simp
  also have "exp (- ln (3 / 2 :: real)) = 2 / 3" by (simp add: exp_minus)
  finally show ?thesis .
qed

lemma quarter_powr_log: "(1 / 4) powr (ln (3 / 2) / ln 2) = (4 / 9 :: real)"
proof -
  have "(1 / 4 :: real) = (1 / 2) * (1 / 2)" by simp
  then have "(1 / 4 :: real) powr (ln (3 / 2) / ln 2) =
        (1 / 2) powr (ln (3 / 2) / ln 2) * (1 / 2) powr (ln (3 / 2) / ln 2)"
    by (simp only: powr_mult)
  then show ?thesis by (simp add: half_powr_log)
qed

text \<open>
  Claim C5. The series \<open>(2, 0.5, 20), (4, 1, 30)\<close> queried at 0.25 takes the power-law
  branch (the target is below the minimum, there are two points, both positive) and
  the result is \<open>Ok\<close> with \<open>noteLow = True\<close> and a current of 1, strictly less than 2.
\<close>

theorem power_law_example:
  "js_lt (Num 0.25) (pt_y (hd (js_sort byY series_2_4))) \<and>
   2 \<le> length (js_sort byY series_2_4) \<and>
   positivePair (js_sort byY series_2_4 ! 0) (js_sort byY series_2_4 ! 1) \<and>
   interpolateCurrentForLift series_2_4 (Num 0.25) =
     powerLaw (js_sort byY series_2_4 ! 0) (js_sort byY series_2_4 ! 1) (Num 0.25) \<and>
   interpolateCurrentForLift series_2_4 (Num 0.25) =
     Ok (Num 1)
        (Num (20 * (1 / 4) powr (ln (3 / 2) / ln 2) / (1 / 2) powr (ln (3 / 2) / ln 2)))
        True \<and>
   js_lt (Num 1) (Num 2)"
proof -
  have r: "double_range (1 / 2) = Num (1 / 2)" "double_range (1 / 4) = Num (1 / 4)"
    "double_range ((1 / 2) powr (ln (3 / 2) / ln 2)) = Num ((1 / 2) powr (ln (3 / 2) / ln 2))"
    "double_range ((1 / 4) powr (ln (3 / 2) / ln 2)) = Num ((1 / 4) powr (ln (3 / 2) / ln 2))"
    by (rule double_range_id; simp add: half_powr_log quarter_powr_log)+
  show ?thesis
    by (simp add: interpolateCurrentForLift_def js_sort_def byY_def js_sub_def positivePair_def
      js_gt_def series_2_4_def powerLaw_def eps9_def js_or_def Let_def r)
qed

text \<open>
  Claim C10 says that the exponent \<^verbatim>\<open>ln(b.x/a.x) / ln(b.y/a.y)\<close> never divides by zero
  and that the current of the result is finite. Two lowest points of equal thrust
  pass the guard of the power-law branch; then \<^verbatim>\<open>ln(b.y/a.y)\<close> is 0, the exponent is
  \<^verbatim>\<open>Infinity\<close>, the coefficient is \<^verbatim>\<open>Infinity\<close>, and the current is
  \<^verbatim>\<open>Infinity * 0\<close>, which is NaN. The series \<open>(2, 0.5), (4, 0.5)\<close> at 0.25:
\<close>

theorem power_law_equal_thrust_nan:
  "js_lt (Num 0.25) (pt_y (hd (js_sort byY series_equal_thrust))) \<and>
   2 \<le> length (js_sort byY series_equal_thrust) \<and>
   positivePair (js_sort byY series_equal_thrust ! 0) (js_sort byY series_equal_thrust ! 1) \<and>
   Math_log (js_div (pt_y (js_sort byY series_equal_thrust ! 1))
                    (pt_y (js_sort byY series_equal_thrust ! 0))) = Num 0 \<and>
   interpolateCurrentForLift series_equal_thrust (Num 0.25) = Ok NaN (Num 0) True \<and>
   \<not> is_num NaN"
  by (simp add: interpolateCurrentForLift_def js_sort_def byY_def js_sub_def positivePair_def
      js_gt_def series_equal_thrust_def powerLaw_def eps9_def js_or_def Let_def)

section \<open>The lift interpolator: interpolation inside the range\<close>

lemma segmentLoop_first:
  "Suc i < length pts \<Longrightarrow> brackets (pts ! i) (pts ! Suc i) lift \<Longrightarrow>
   (\<And>j. j < i \<Longrightarrow> \<not> brackets (pts ! j) (pts ! Suc j) lift) \<Longrightarrow>
   segmentLoop pts lift = lerpSegment (pts ! i) (pts ! Suc i) lift"
proof (induction pts lift arbitrary: i rule: segmentLoop.induct)
  case (1 a b rest lift)
  show ?case
  proof (cases i)
    case 0
    with "1.prems"(2) show ?thesis by (simp add: brackets_def)
  next
    case (Suc k)
    have nb: "\<not> brackets a b lift" using "1.prems"(3)[of 0] Suc by simp
    have "segmentLoop (b # rest) lift = lerpSegment ((b # rest) ! k) ((b # rest) ! Suc k) lift"
    proof (rule "1.IH")
      show "\<not> (js_ge lift (pt_y a) \<and> js_le lift (pt_y b))" using nb by (simp add: brackets_def)
      show "Suc k < length (b # rest)" using "1.prems"(1) Suc by simp
      show "brackets ((b # rest) ! k) ((b # rest) ! Suc k) lift" using "1.prems"(2) Suc by simp
      show "\<And>j. j < k \<Longrightarrow> \<not> brackets ((b # rest) ! j) ((b # rest) ! Suc j) lift"
        using "1.prems"(3) Suc by (metis Suc_less_eq nth_Cons_Suc)
    qed
    with nb Suc show ?thesis by (auto simp: brackets_def)
  qed
qed simp_all

lemma js_or_diff:
  "js_ge lift ya \<Longrightarrow> js_le lift yb \<Longrightarrow>
   js_or (js_sub yb ya) (Num 1) = (if yb = ya then Num 1 else js_sub yb ya)"
  by (cases lift; cases ya; cases yb) (auto simp: js_or_def js_sub_def js_ge_def)

text \<open>
  Claim C6. Let the target be neither below the first nor above the last point of the
  series sorted by thrust, and let \<open>a, b\<close> be the bracketing pair the loop finds: the
  first consecutive pair with \<open>a.y \<le> target \<le> b.y\<close>. Then the result is \<open>Ok\<close> with
  \<open>noteLow = False\<close>, and current and throttle are the linear interpolation at
  \<open>t = (target - a.y) / (b.y - a.y)\<close>, with 1 for the denominator when \<open>b.y = a.y\<close>.
  For the series \<open>(5, 1), (10, 2)\<close> and the target 1.5 this is a current of 7.5.
\<close>

theorem in_range_linear:
  assumes "series \<noteq> []"
    and "\<not> js_lt lift (pt_y (hd (js_sort byY series)))"
    and "\<not> js_gt lift (pt_y (last (js_sort byY series)))"
    and "Suc i < length series"
    and "a = js_sort byY series ! i" and "b = js_sort byY series ! Suc i"
    and "brackets a b lift"
    and "\<forall>j<i. \<not> brackets (js_sort byY series ! j) (js_sort byY series ! Suc j) lift"
    and "t = js_div (js_sub lift (pt_y a))
                    (if pt_y b = pt_y a then Num 1 else js_sub (pt_y b) (pt_y a))"
  shows "interpolateCurrentForLift series lift =
           Ok (js_add (pt_x a) (js_mul t (js_sub (pt_x b) (pt_x a))))
              (js_add (nullish (pt_throttle a) (Num 0))
                      (js_mul t (js_sub (nullish (pt_throttle b) (Num 0))
                                        (nullish (pt_throttle a) (Num 0)))))
              False"
proof -
  let ?pts = "js_sort byY series"
  have len: "Suc i < length ?pts" using assms(4) by (simp add: length_js_sort)
  have "interpolateCurrentForLift series lift = segmentLoop ?pts lift"
    using assms(1,2,3) by (simp add: interpolateCurrentForLift_def Let_def)
  also have "\<dots> = lerpSegment (?pts ! i) (?pts ! Suc i) lift"
    using len assms(5,6,7,8) by (intro segmentLoop_first) auto
  also have "\<dots> = lerpSegment a b lift" using assms(5,6) by simp
  finally show ?thesis
    using assms(7,9) js_or_diff[of lift "pt_y a" "pt_y b"]
    by (simp add: lerpSegment_def Let_def brackets_def)
qed

theorem in_range_linear_witness:
  "interpolateCurrentForLift series_5_10 (Num 1.5) = Ok (Num 7.5) (Num 0) False"
  using in_range_linear [of series_5_10 "Num 1.5" 0 "series_5_10 ! 0" "series_5_10 ! 1" "Num 0.5"]
  by (simp add: sort_5_10 brackets_def js_ge_def js_gt_def js_sub_def)
     (simp add: series_5_10_def js_sub_def)

section \<open>The series builder\<close>

lemma js_gt_sub_finite:
  "is_num a \<Longrightarrow> is_num b \<Longrightarrow> js_gt (js_sub a b) (Num 0) \<longleftrightarrow> \<not> num_val a \<le> num_val b"
  by (cases a; cases b) (auto simp: js_gt_def js_sub_def)

lemma js_le_finite: "is_num a \<Longrightarrow> is_num b \<Longrightarrow> js_le a b \<longleftrightarrow> num_val a \<le> num_val b"
  by (cases a; cases b) auto

lemma js_insert_insort_key:
  assumes "\<And>a b. cmp a b = js_sub (k a) (k b)"
    and "is_num (k v)" and "\<forall>p\<in>set xs. is_num (k p)"
  shows "js_insert cmp v xs = insort_key (\<lambda>p. num_val (k p)) v xs"
  using assms(3)
  by (induction xs) (simp_all add: assms(1,2) js_gt_sub_finite)

lemma js_sort_sort_key:
  assumes "\<And>a b. cmp a b = js_sub (k a) (k b)" and "\<forall>p\<in>set xs. is_num (k p)"
  shows "js_sort cmp xs = sort_key (\<lambda>p. num_val (k p)) xs"
  using assms(2)
proof (induction xs)
  case Nil
  show ?case by (simp add: js_sort_def)
next
  case (Cons v xs)
  then have IH: "js_sort cmp xs = sort_key (\<lambda>p. num_val (k p)) xs" by simp
  have "js_sort cmp (v # xs) = js_insert cmp v (js_sort cmp xs)"
    by (simp add: js_sort_def)
  also have "\<dots> = insort_key (\<lambda>p. num_val (k p)) v (js_sort cmp xs)"
    using Cons.prems by (intro js_insert_insort_key assms(1)) (simp_all add: set_js_sort)
  finally show ?case by (simp add: IH)
qed

lemma sorted_js_sort:
  assumes "\<And>a b. cmp a b = js_sub (k a) (k b)" and "\<forall>p\<in>set xs. is_num (k p)"
  shows "sorted_wrt (\<lambda>a b. js_le (k a) (k b)) (js_sort cmp xs)"
proof -
  have "sorted (map (\<lambda>p. num_val (k p)) (js_sort cmp xs))"
    by (simp add: js_sort_sort_key[OF assms])
  then have "sorted_wrt (\<lambda>a b. num_val (k a) \<le> num_val (k b)) (js_sort cmp xs)"
    by (simp add: sorted_map)
  then show ?thesis
    by (rule sorted_wrt_mono_rel[rotated]) (simp add: js_le_finite assms(2) set_js_sort)
qed

lemma finiteRow_iff:
  "finiteRow r \<longleftrightarrow> (\<exists>c t. row_current r = Some (Num c) \<and> row_thrust_kg r = Some (Num t))"
proof -
  have "\<And>v. Number_isFinite v \<longleftrightarrow> (\<exists>c. v = Some (Num c))"
    by (metis Number_isFinite.elims(2) Number_isFinite.simps(1) Number_isFinite.simps(2)
        is_num.cases not_None_eq Number_isFinite.simps(3) Number_isFinite.simps(4)
        Number_isFinite.simps(5))
  then show ?thesis by (auto simp: finiteRow_def)
qed

lemma toPoint_finite: "finiteRow r \<Longrightarrow> is_num (pt_x (toPoint r)) \<and> is_num (pt_y (toPoint r))"
  by (auto simp: finiteRow_iff toPoint_def)

lemma mset_buildSeries:
  "mset (buildSeries (Some rows)) = image_mset toPoint (filter_mset finiteRow (mset rows))"
  by (simp add: buildSeries_def mset_js_sort)

lemma sorted_buildSeries:
  "sorted_wrt (\<lambda>a b. js_le (pt_x a) (pt_x b)) (buildSeries (Some rows))"
  unfolding buildSeries_def option.case
  by (rule sorted_js_sort) (auto simp: byX_def toPoint_finite)

text \<open>
  Claim C8. \<open>buildSeries\<close> of \<^verbatim>\<open>null\<close> or of no rows is empty. Otherwise its result
  holds exactly the rows whose current and thrust are both finite numbers (as a
  multiset: each such row once for each of its occurrences), each mapped to the point
  \<open>(x = current, y = thrust, throttle)\<close>; every point of the result has a finite \<open>x\<close> and
  \<open>y\<close>; the result is non-decreasing in \<open>x\<close>. A permutation of the rows gives a result
  that is again non-decreasing in \<open>x\<close> and holds the same points.
\<close>

theorem buildSeries_filtered_sorted:
  "buildSeries None = [] \<and> buildSeries (Some []) = [] \<and>
   mset (buildSeries (Some rows)) =
     {#\<lparr>pt_x = the (row_current r), pt_y = the (row_thrust_kg r), pt_throttle = row_throttle r\<rparr>.
       r \<in># filter_mset (\<lambda>r. \<exists>c t. row_current r = Some (Num c) \<and> row_thrust_kg r = Some (Num t))
               (mset rows)#} \<and>
   (\<forall>p\<in>set (buildSeries (Some rows)). is_num (pt_x p) \<and> is_num (pt_y p)) \<and>
   sorted_wrt (\<lambda>a b. js_le (pt_x a) (pt_x b)) (buildSeries (Some rows)) \<and>
   (mset rows' = mset rows \<longrightarrow>
      sorted_wrt (\<lambda>a b. js_le (pt_x a) (pt_x b)) (buildSeries (Some rows')) \<and>
      mset (buildSeries (Some rows')) = mset (buildSeries (Some rows)))"
proof -
  have e: "buildSeries None = [] \<and> buildSeries (Some []) = []"
    by (simp add: buildSeries_def js_sort_def)
  have "filter_mset finiteRow (mset rows) =
        filter_mset (\<lambda>r. \<exists>c t. row_current r = Some (Num c) \<and> row_thrust_kg r = Some (Num t))
          (mset rows)"
    by (rule filter_mset_cong) (simp_all add: finiteRow_iff)
  moreover have "image_mset toPoint (filter_mset finiteRow (mset rows)) =
        {#\<lparr>pt_x = the (row_current r), pt_y = the (row_thrust_kg r), pt_throttle = row_throttle r\<rparr>.
          r \<in># filter_mset finiteRow (mset rows)#}"
    by (rule image_mset_cong) (auto simp: finiteRow_iff toPoint_def)
  ultimately have m: "mset (buildSeries (Some rows)) =
     {#\<lparr>pt_x = the (row_current r), pt_y = the (row_thrust_kg r), pt_throttle = row_throttle r\<rparr>.
       r \<in># filter_mset (\<lambda>r. \<exists>c t. row_current r = Some (Num c) \<and> row_thrust_kg r = Some (Num t))
               (mset rows)#}"
    by (simp add: mset_buildSeries)
  have "set (buildSeries (Some rows)) = toPoint ` {r \<in> set rows. finiteRow r}"
    by (simp add: buildSeries_def set_js_sort)
  then have f: "\<forall>p\<in>set (buildSeries (Some rows)). is_num (pt_x p) \<and> is_num (pt_y p)"
    by (auto simp: toPoint_finite)
  have p: "mset rows' = mset rows \<longrightarrow>
      mset (buildSeries (Some rows')) = mset (buildSeries (Some rows))"
    by (simp add: mset_buildSeries)
  show ?thesis
    using e m f p sorted_buildSeries[of rows] sorted_buildSeries[of rows'] by blast
qed

theorem buildSeries_filtered_sorted_witness:
  "buildSeries (Some rows_example) =
     [\<lparr>pt_x = Num 1, pt_y = Num 0.5, pt_throttle = None\<rparr>,
      \<lparr>pt_x = Num 3, pt_y = Num 1, pt_throttle = Some (Num 50)\<rparr>] \<and>
   sorted_wrt (\<lambda>a b. js_le (pt_x a) (pt_x b)) (buildSeries (Some (rev rows_example))) \<and>
   mset (buildSeries (Some (rev rows_example))) = mset (buildSeries (Some rows_example))"
proof -
  have "buildSeries (Some rows_example) =
     [\<lparr>pt_x = Num 1, pt_y = Num 0.5, pt_throttle = None\<rparr>,
      \<lparr>pt_x = Num 3, pt_y = Num 1, pt_throttle = Some (Num 50)\<rparr>]"
    by (simp add: buildSeries_def rows_example_def finiteRow_def toPoint_def js_sort_def
        byX_def js_sub_def js_gt_def)
  moreover have "mset (rev rows_example) = mset rows_example" by simp
  ultimately show ?thesis
    using buildSeries_filtered_sorted [of rows_example "rev rows_example"] by blast
qed

section \<open>The flight-curve builder: flight time\<close>

lemmas curve_eval = buildFlightCurve_def Math_min_list_def Math_max_list_def
  sweepLoop.simps sweepStep_def interpolateCurrentForLift_def js_sort_def byY_def byW_def
  js_sub_def js_gt_def js_ge_def singlePoint_def linearFallback_def lerpSegment_def
  positivePair_def eps9_def eps6_def minutesFor_def js_or_def addBoundary_def Let_def

lemma perMotorA_cases:
  "(case Math_max (js_or cur (Num 0)) (Num 0.1) of Num a \<Rightarrow> 0 < a | PInf \<Rightarrow> True | _ \<Rightarrow> False)"
  by (cases cur) (auto simp: js_or_def)

lemma minutesFor_range:
  assumes "0 < m" and "0 \<le> ua"
  shows "js_le (Num 0) (minutesFor cur (Num m) (Num ua)) \<and>
         js_le (minutesFor cur (Num m) (Num ua)) (Num 120)"
proof (cases "Math_max (js_or cur (Num 0)) (Num 0.1)")
  case (Num a)
  then have a: "0 < a" using perMotorA_cases[of cur] by simp
  have am: "0 < a * m" using a assms(1) by simp
  have nn: "0 \<le> ua / (a * m) * 60" using assms(2) am by simp
  have "minutesFor cur (Num m) (Num ua) = Math_min (Num (ua / (a * m) * 60)) (Num 120)"
    using Num a assms(1) by (simp add: minutesFor_def js_gt_def)
  then show ?thesis using nn by simp
next
  case PInf
  then show ?thesis using assms(1) by (simp add: minutesFor_def js_gt_def)
next
  case NInf
  then show ?thesis using perMotorA_cases[of cur] by simp
next
  case NaN
  then show ?thesis using perMotorA_cases[of cur] by simp
qed


lemma sweepStep_set:
  "set (sweepStep series mc ua mn st en points i out) \<subseteq>
     set out \<union> {q. \<exists>lift cur thr low. interpolateCurrentForLift series lift = Ok cur thr low \<and>
                   q = \<lparr>fc_w = js_mul lift mc, fc_t = minutesFor cur mc ua,
                        fc_est = js_lt lift (js_sub mn eps9)\<rparr>}"
  unfolding sweepStep_def Let_def
  by (cases "interpolateCurrentForLift series (js_add st (js_mul (js_sub en st)
        (js_div (Num (real i)) (js_sub (Num (real points)) (Num 1)))))") auto


lemma sweepLoop_inv:
  "(\<And>out i. i < points \<Longrightarrow> P out \<Longrightarrow> P (sweepStep series mc ua mn st en points i out)) \<Longrightarrow>
   P out \<Longrightarrow> P (sweepLoop series mc ua mn st en points i out)"
proof (induction series mc ua mn st en points i out rule: sweepLoop.induct)
  case (1 series mc ua mn st en points i out)
  show ?case
  proof (cases "i < points")
    case True
    have "P (sweepStep series mc ua mn st en points i out)"
      using "1.prems" True by blast
    then have "P (sweepLoop series mc ua mn st en points (Suc i)
                    (sweepStep series mc ua mn st en points i out))"
      using "1.IH"[OF True] "1.prems"(1) by blast
    then show ?thesis
      using True by (subst sweepLoop.simps) simp
  next
    case False
    then show ?thesis using "1.prems"(2) by (subst sweepLoop.simps) simp
  qed
qed

lemma addBoundary_set:
  "set (addBoundary series mc ua mn out) \<subseteq>
     set out \<union> {q. \<exists>cur thr low. interpolateCurrentForLift series mn = Ok cur thr low \<and>
                   q = \<lparr>fc_w = js_mul mn mc, fc_t = minutesFor cur mc ua, fc_est = False\<rparr>}"
  unfolding addBoundary_def Let_def
  by (cases "interpolateCurrentForLift series mn") auto

text \<open>
  Claim C9. For a positive motor count, a battery capacity of at least 0 and a usable
  percentage between 0 and 100, every point of the flight curve has its minutes between
  0 and 120, for every series and every sample count. The per-motor current is floored
  at 0.1, so the total current is positive (possibly infinite) and the minutes are
  \<open>usableAh / totalCurrent * 60\<close> capped at 120, however small the total current.
\<close>

theorem flight_minutes_range:
  assumes "0 < m" and "0 \<le> c" and "0 \<le> u" and "u \<le> 100"
  shows "\<forall>p\<in>set (buildFlightCurve series (Num m) (Num c) (Num u) points).
           js_le (Num 0) (fc_t p) \<and> js_le (fc_t p) (Num 120)"
proof (cases "series = []")
  case True
  then show ?thesis by (simp add: buildFlightCurve_def)
next
  case False
  define ua where "ua = c * (u / 100)"
  have ua: "0 \<le> ua" using assms(2,3) by (simp add: ua_def)
  define P where "P out \<longleftrightarrow> (\<forall>p\<in>set out. js_le (Num 0) (fc_t p) \<and> js_le (fc_t p) (Num 120))"
    for out :: "fcpoint list"
  have step: "P (sweepStep series (Num m) (Num ua) mn st en points i out)"
    if "P out" for out i mn st en
    using that sweepStep_set[of series "Num m" "Num ua" mn st en points i out]
      minutesFor_range[OF assms(1) ua]
    unfolding P_def by fastforce
  have loop: "P (sweepLoop series (Num m) (Num ua) mn st en points 0 [])" for mn st en
    by (rule sweepLoop_inv) (simp_all add: step, simp add: P_def)
  have bnd: "P (addBoundary series (Num m) (Num ua) mn out)" if "P out" for out mn
    using that addBoundary_set[of series "Num m" "Num ua" mn out]
      minutesFor_range[OF assms(1) ua]
    unfolding P_def by fastforce
  have "P (buildFlightCurve series (Num m) (Num c) (Num u) points)"
    using False bnd[OF loop]
    by (simp add: buildFlightCurve_def Let_def ua_def P_def set_js_sort)
  then show ?thesis by (simp add: P_def)
qed

theorem flight_minutes_range_witness:
  "buildFlightCurve series_single (Num 4) (Num 20) (Num 80) 2 =
     [\<lparr>fc_w = Num 2.8, fc_t = Num (480 / 7), fc_est = True\<rparr>,
      \<lparr>fc_w = Num 3.96, fc_t = Num (1600 / 33), fc_est = True\<rparr>] \<and>
   list_all (\<lambda>p. js_le (Num 0) (fc_t p) \<and> js_le (fc_t p) (Num 120))
     (buildFlightCurve series_single (Num 4) (Num 20) (Num 80) 2)"
proof -
  have "buildFlightCurve series_single (Num 4) (Num 20) (Num 80) 2 =
     [\<lparr>fc_w = Num 2.8, fc_t = Num (480 / 7), fc_est = True\<rparr>,
      \<lparr>fc_w = Num 3.96, fc_t = Num (1600 / 33), fc_est = True\<rparr>]"
    by (simp add: curve_eval series_single_def)
  moreover have "list_all (\<lambda>p. js_le (Num 0) (fc_t p) \<and> js_le (fc_t p) (Num 120))
     (buildFlightCurve series_single (Num 4) (Num 20) (Num 80) 2)"
    using flight_minutes_range [of 4 20 80 series_single 2] by (simp add: list_all_iff)
  ultimately show ?thesis by blast
qed

section \<open>The lift interpolator: sign of the result\<close>



lemma is_num_iff: "is_num v \<longleftrightarrow> (\<exists>r. v = Num r)"
  by (cases v) auto



text \<open>
  The NaN of the power-law fallback does not need equal thrusts. With the two lowest
  thrusts 0.5 and 0.5002 the exponent \<^verbatim>\<open>ln(b.x/a.x) / ln(b.y/a.y)\<close> is beyond 1075, both
  powers underflow to 0, the coefficient \<^verbatim>\<open>a.x / 0\<close> is \<^verbatim>\<open>Infinity\<close> and the current
  \<^verbatim>\<open>Infinity * 0\<close> is NaN.
\<close>

lemma ln_2_lower: "(0.43::real) \<le> ln 2"
proof -
  have "exp (0.43::real) \<le> 1 + 0.43 + 0.43\<^sup>2" by (rule exp_bound) simp_all
  also have "\<dots> \<le> 2" by (simp add: power2_eq_square)
  finally have "exp (0.43::real) \<le> exp (ln 2)" by simp
  then show ?thesis by (simp only: exp_le_cancel_iff)
qed

lemma near_equal_exponent: "1075 \<le> ln 2 / ln (2501 / 2500 :: real)"
proof -
  have "ln (1 + 1 / 2500 :: real) \<le> 1 / 2500" by (rule ln_add_one_self_le_self) simp
  then have u: "ln (2501 / 2500 :: real) \<le> 1 / 2500" by simp
  have p: "0 < ln (2501 / 2500 :: real)" by simp
  have "1075 * ln (2501 / 2500 :: real) \<le> 1075 * (1 / 2500)" using u by simp
  also have "\<dots> \<le> ln 2" using ln_2_lower by simp
  finally show ?thesis using p by (simp add: pos_le_divide_eq)
qed

lemma powr_underflow:
  assumes "0 < x" and "x \<le> 1 / 2" and "1075 \<le> e"
  shows "double_range (x powr e) = Num 0"
proof -
  have "x powr e \<le> x powr 1075" using assms by (intro powr_mono') simp_all
  also have "x powr 1075 = x ^ 1075" using assms(1) powr_realpow[of x 1075] by simp
  also have "x ^ 1075 \<le> (1 / 2) ^ 1075" using assms by (intro power_mono) simp_all
  finally have "x powr e \<le> 1 / 2 ^ 1075" by (simp add: power_one_over)
  moreover have "0 \<le> x powr e" by simp
  ultimately show ?thesis by (simp add: double_range_def)
qed

lemma power_law_near_equal_thrust_nan:
  "interpolateCurrentForLift series_near_equal (Num 0.25) = Ok NaN (Num 0) True"
proof -
  have e: "ln 2 / ln (2501 / 2500 :: real) \<noteq> 0" using near_equal_exponent by linarith
  have u: "double_range ((1 / 2) powr (ln 2 / ln (2501 / 2500))) = Num 0"
          "double_range ((1 / 4) powr (ln 2 / ln (2501 / 2500))) = Num 0"
    by (rule powr_underflow[OF _ _ near_equal_exponent]; simp)+
  show ?thesis
    using e
    by (simp add: interpolateCurrentForLift_def js_sort_def byY_def js_sub_def positivePair_def
      js_gt_def series_near_equal_def powerLaw_def eps9_def js_or_def Let_def u)
qed










text \<open>
  The target \<^verbatim>\<open>-Infinity\<close> is set aside below: on the linear fallback a slope of 0
  times \<^verbatim>\<open>-Infinity\<close> is NaN, which \<^verbatim>\<open>Math.max(0, NaN)\<close> keeps.
\<close>

lemma linear_fallback_minus_infinity:
  "interpolateCurrentForLift series_flat NInf = Ok NaN NaN True"
  by (simp add: interpolateCurrentForLift_def js_sort_def byY_def js_sub_def js_gt_def
      series_flat_def positivePair_def linearFallback_def js_or_def Let_def)



section \<open>The flight-curve builder: the boundary point\<close>




























lemma sweep_width:
  assumes "Num e = Math_max (js_add (Num s) (Num 0.01)) (js_mul (Num xv) (Num 0.99))"
  shows "s + 0.01 \<le> e"
  using assms by (simp split: if_splits)





text \<open>At the series of the counterexample the two points are \<open>1.98e-6\<close> apart in total
  weight, and one of them only is within \<open>1e-6\<close> of the boundary weight 3.96.\<close>

lemma close_series_one_near_weight:
  "length (filter (nearWeight (js_mul (Num 0.99) (Num 4)))
            (buildFlightCurve series_close (Num 4) (Num 20) (Num 80) 2)) = 1"
proof -
  have "buildFlightCurve series_close (Num 4) (Num 20) (Num 80) 2 =
     [\<lparr>fc_w = Num 2.772, fc_t = Num 120, fc_est = True\<rparr>,
      \<lparr>fc_w = Num 3.96, fc_t = Num 120, fc_est = False\<rparr>,
      \<lparr>fc_w = Num 3.96000198, fc_t = Num 120, fc_est = False\<rparr>]"
    by (simp add: curve_eval series_close_def)
  then show ?thesis by (simp add: nearWeight_def js_sub_def eps6_def)
qed

section \<open>The lift interpolator: the search for two or more points\<close>

text \<open>
  With at least two points of finite thrust and a finite target that is neither below
  the first nor above the last point of the sorted series, the loop does find a
  bracketing pair. Only a series of a single point reaches \<^verbatim>\<open>segment-not-found\<close> with
  a finite target.
\<close>

lemma segmentLoop_finds:
  assumes "\<forall>p\<in>set (a # b # rest). is_num (pt_y p)" and "is_num lift"
    and "js_le (pt_y a) lift" and "js_le lift (pt_y (last (a # b # rest)))"
  shows "\<exists>c t. segmentLoop (a # b # rest) lift = Ok c t False"
  using assms
proof (induction rest arbitrary: a b)
  case Nil
  then show ?case by (simp add: js_ge_def lerpSegment_def Let_def)
next
  case (Cons d rest)
  show ?case
  proof (cases "js_le lift (pt_y b)")
    case True
    then show ?thesis using Cons.prems(3) by (simp add: js_ge_def lerpSegment_def Let_def)
  next
    case False
    obtain l yb where v: "lift = Num l" "pt_y b = Num yb"
      using Cons.prems(1,2) by (auto simp: is_num_iff)
    have "js_le (pt_y b) lift" using False by (simp add: v)
    then have "\<exists>c t. segmentLoop (b # d # rest) lift = Ok c t False"
      using Cons.IH[of b d] Cons.prems by simp
    then show ?thesis using False by simp
  qed
qed

lemma in_range_found:
  assumes "2 \<le> length series" and "\<forall>p\<in>set series. is_num (pt_y p)" and "is_num lift"
    and "\<not> js_lt lift (pt_y (hd (js_sort byY series)))"
    and "\<not> js_gt lift (pt_y (last (js_sort byY series)))"
  shows "\<exists>c t. interpolateCurrentForLift series lift = Ok c t False"
proof -
  let ?pts = "js_sort byY series"
  have ne: "series \<noteq> []" using assms(1) by auto
  have "2 \<le> length ?pts" using assms(1) by (simp add: length_js_sort)
  then obtain a b rest where pts: "?pts = a # b # rest"
    by (cases ?pts; cases "tl ?pts") auto
  have fin: "\<forall>p\<in>set (a # b # rest). is_num (pt_y p)"
    using assms(2) set_js_sort[of byY series] pts by auto
  then have "is_num (pt_y a)" "is_num (pt_y (last (a # b # rest)))"
    using last_in_set[of "a # b # rest"] by auto
  then have "js_le (pt_y a) lift" "js_le lift (pt_y (last (a # b # rest)))"
    using assms(3,4,5) unfolding pts js_gt_def
    by (auto simp: is_num_iff)
  then have "\<exists>c t. segmentLoop (a # b # rest) lift = Ok c t False"
    using segmentLoop_finds[OF fin assms(3)] by blast
  then show ?thesis
    using ne assms(4,5) unfolding interpolateCurrentForLift_def Let_def pts by simp
qed

end
